theory Spec2Isabelle
  imports Complex_Main
begin

section \<open>Plate text: characters, normalisation and the two validators\<close>

text \<open>
  OCR text is modelled as \<open>string\<close>. The model covers ASCII text: upper-casing acts on
  the letters a..z and leaves every other character as it is, and the digit class
  \<open>[0-9]\<close> of the regular expressions is the ten ASCII digits, as in Python's \<open>re\<close>
  for a \<open>str\<close> pattern with an explicit range.
\<close>

definition ascii_lower :: string where
  "ascii_lower = ''abcdefghijklmnopqrstuvwxyz''"

definition ascii_upper :: string where
  "ascii_upper = ''ABCDEFGHIJKLMNOPQRSTUVWXYZ''"

definition ascii_digits :: string where
  "ascii_digits = ''0123456789''"

definition upper :: "char \<Rightarrow> char" where
  \<comment> \<open>\<open>char.upper()\<close>\<close>
  "upper c = (case map_of (zip ascii_lower ascii_upper) c of Some u \<Rightarrow> u | None \<Rightarrow> c)"

definition is_digit :: "char \<Rightarrow> bool" where
  \<comment> \<open>membership in \<open>[0-9]\<close>\<close>
  "is_digit c = (c \<in> set ascii_digits)"

definition is_alnum :: "char \<Rightarrow> bool" where
  \<comment> \<open>membership in \<open>[a-zA-Z0-9]\<close>\<close>
  "is_alnum c = (c \<in> set ascii_lower \<or> c \<in> set ascii_upper \<or> c \<in> set ascii_digits)"

definition is_sep :: "char \<Rightarrow> bool" where
  \<comment> \<open>membership in the class written \<open>[-\\s]\<close> inside a raw string literal: the
      regular-expression engine reads a hyphen, an escaped backslash and the letter s\<close>
  "is_sep c = (c = CHR ''-'' \<or> c = CHR 0x5C \<or> c = CHR ''s'')"

definition is_space :: "char \<Rightarrow> bool" where
  \<comment> \<open>the ASCII characters \<open>str.strip()\<close> removes\<close>
  "is_space c = (c \<in> {CHR 0x09, CHR 0x0A, CHR 0x0B, CHR 0x0C, CHR 0x0D,
                        CHR 0x1C, CHR 0x1D, CHR 0x1E, CHR 0x1F, CHR 0x20})"

definition char_map :: "(char \<times> char) list" where
  "char_map = [(CHR ''O'', CHR ''0''), (CHR ''I'', CHR ''1''), (CHR ''L'', CHR ''1''),
               (CHR ''S'', CHR ''5''), (CHR ''B'', CHR ''8''), (CHR ''Z'', CHR ''2''),
               (CHR ''G'', CHR ''6''), (CHR ''Q'', CHR ''0''), (CHR ''A'', CHR ''4''),
               (CHR ''E'', CHR ''3'')]"

definition correct_char :: "char \<Rightarrow> char" where
  \<comment> \<open>\<open>char_map.get(char.upper(), char.upper())\<close>\<close>
  "correct_char c = (case map_of char_map (upper c) of Some d \<Rightarrow> d | None \<Rightarrow> upper c)"

definition corrected_raw_text :: "string \<Rightarrow> string" where
  "corrected_raw_text raw_text_from_ocr = map correct_char raw_text_from_ocr"

definition digits_only :: "string \<Rightarrow> string" where
  \<comment> \<open>\<open>re.sub(r'[^0-9]', '', s)\<close>\<close>
  "digits_only s = filter is_digit s"

definition punctuation :: string where
  \<comment> \<open>Python's \<open>string.punctuation\<close>\<close>
  "punctuation = ''!'' @ [CHR 0x22] @ ''#$%&'' @ [CHR 0x27] @ ''()*+,-./:;<=>?@['' @ [CHR 0x5C]
     @ '']^_'' @ [CHR 0x60] @ ''{|}~''"

subsection \<open>The two separator patterns and \<open>re.fullmatch\<close>\<close>

text \<open>
  Both patterns of \<open>_validate_and_format_plate_by_rules\<close> are a sequence of
  character-class repetitions \<open>[..]{n}\<close> and optional classes \<open>[..]?\<close>. A matcher for
  such sequences returns every suffix that can remain, so that backtracking over the
  optional items is covered; \<open>re.fullmatch\<close> succeeds when the empty suffix can remain.
\<close>

datatype re_item = Rep "char \<Rightarrow> bool" nat | Opt "char \<Rightarrow> bool"

fun match_item :: "re_item \<Rightarrow> string \<Rightarrow> string list" where
  "match_item (Rep P n) s = (if n \<le> length s \<and> list_all P (take n s) then [drop n s] else [])"
| "match_item (Opt P) [] = [[]]"
| "match_item (Opt P) (c # cs) = (if P c then [cs, c # cs] else [c # cs])"

fun match_seq :: "re_item list \<Rightarrow> string \<Rightarrow> string list" where
  "match_seq [] s = [s]"
| "match_seq (i # items) s = concat (map (match_seq items) (match_item i s))"

definition fullmatch :: "re_item list \<Rightarrow> string \<Rightarrow> bool" where
  "fullmatch items s = ([] \<in> set (match_seq items s))"

definition nn_nnn_nn_raw_re :: "re_item list" where
  "nn_nnn_nn_raw_re = [Rep is_alnum 2, Opt is_sep, Rep is_alnum 3, Opt is_sep, Rep is_alnum 2]"

definition n_nnnn_nn_raw_re :: "re_item list" where
  "n_nnnn_nn_raw_re = [Rep is_alnum 1, Opt is_sep, Rep is_alnum 4, Opt is_sep, Rep is_alnum 2]"

subsection \<open>\<open>SimpleOCRWorker\<close> (python\_yolo.py)\<close>

definition format_nn_nnn_nn :: "string \<Rightarrow> string" where
  "format_nn_nnn_nn t = take 2 t @ ''-'' @ take 3 (drop 2 t) @ ''-'' @ drop 5 t"

definition format_n_nnnn_nn :: "string \<Rightarrow> string" where
  "format_n_nnnn_nn t = take 1 t @ ''-'' @ take 4 (drop 1 t) @ ''-'' @ drop 5 t"

definition format_nnn_nn_nnn :: "string \<Rightarrow> string" where
  "format_nnn_nn_nnn t = take 3 t @ ''-'' @ take 2 (drop 3 t) @ ''-'' @ drop 5 t"

definition validate_and_format_plate_by_rules :: "string \<Rightarrow> string \<Rightarrow> string option" where
  "validate_and_format_plate_by_rules raw_ocr_text numeric_plate_text =
     (let len_numeric = length numeric_plate_text in
      if len_numeric = 7 then
        (let format1 = format_nn_nnn_nn numeric_plate_text;
             format2 = format_n_nnnn_nn numeric_plate_text;
             match_format1_hint = fullmatch nn_nnn_nn_raw_re raw_ocr_text;
             match_format2_hint = fullmatch n_nnnn_nn_raw_re raw_ocr_text
         in if match_format1_hint \<and> \<not> match_format2_hint then Some format1
            else if match_format2_hint \<and> \<not> match_format1_hint then Some format2
            else if match_format1_hint \<and> match_format2_hint
              then Some (format1 @ '' or '' @ format2)
            else Some (format1 @ '' or '' @ format2))
      else if len_numeric = 8 then Some (format_nnn_nn_nnn numeric_plate_text)
      else None)"

definition numeric_text :: "string \<Rightarrow> string" where
  \<comment> \<open>the digits of the corrected raw text, as the three read paths compute them\<close>
  "numeric_text raw_text_from_ocr = digits_only (corrected_raw_text raw_text_from_ocr)"

definition normalize_and_validate :: "string \<Rightarrow> string option" where
  \<comment> \<open>what \<open>_read_license_plate_trocr\<close>, \<open>_read_license_plate_easyocr\<close> and
      \<open>process_synchronous_ocr\<close> do with the text the engine returned\<close>
  "normalize_and_validate raw_text_from_ocr =
     validate_and_format_plate_by_rules (corrected_raw_text raw_text_from_ocr)
       (numeric_text raw_text_from_ocr)"

subsection \<open>\<open>FastPlateOCRWorker\<close> (python\_yolo\_fast\_plate.py)\<close>

definition strip :: "string \<Rightarrow> string" where
  "strip s = rev (dropWhile is_space (rev (dropWhile is_space s)))"

definition clean_text :: "string \<Rightarrow> string" where
  \<comment> \<open>\<open>raw_text.replace('_', '').strip()\<close>\<close>
  "clean_text raw_text = strip (filter (\<lambda>c. c \<noteq> CHR ''_'') raw_text)"

definition fp_validate_and_format_plate_by_rules :: "string \<Rightarrow> string \<Rightarrow> string option" where
  "fp_validate_and_format_plate_by_rules raw_ocr_text numeric_plate_text =
     (let len_numeric = length numeric_plate_text in
      if len_numeric = 7 then Some (format_nn_nnn_nn numeric_plate_text)
      else if len_numeric = 8 then Some (format_nnn_nn_nnn numeric_plate_text)
      else if len_numeric = 9 then
        (let option1 = drop 1 numeric_plate_text;
             option2 = butlast numeric_plate_text;
             formatted_option1 = format_nnn_nn_nnn option1;
             formatted_option2 = format_nnn_nn_nnn option2
         in Some (formatted_option1 @ '' or '' @ formatted_option2))
      else None)"

definition fp_validate_and_format_plate :: "string \<Rightarrow> string option" where
  "fp_validate_and_format_plate raw_text =
     (if raw_text = [] then None
      else let numeric_only = digits_only (clean_text raw_text) in
        if length numeric_only < 7 \<or> length numeric_only > 9 then None
        else fp_validate_and_format_plate_by_rules (clean_text raw_text) numeric_only)"

section \<open>\<open>DetectionWorker.run\<close>: vehicle filter, association and best plate\<close>

text \<open>
  A detection is one row of \<open>boxes.data.tolist()\<close>: \<open>x1, y1, x2, y2, score, class_id\<close>,
  all floating-point numbers, modelled as reals. The same loop is in python\_yolo.py and in
  python\_yolo\_fast\_plate.py. The two detector calls are the frame's inputs
  \<open>vehicle_detections_raw\<close> and \<open>license_plates_raw\<close>.
\<close>

type_synonym detection = "real \<times> real \<times> real \<times> real \<times> real \<times> real"
type_synonym plate = "real \<times> real \<times> real \<times> real \<times> real"
type_synonym coords = "real \<times> real \<times> real \<times> real"

definition py_int :: "real \<Rightarrow> int" where
  \<comment> \<open>\<open>int(x)\<close> truncates towards zero\<close>
  "py_int x = (if 0 \<le> x then \<lfloor>x\<rfloor> else \<lceil>x\<rceil>)"

definition vehicle_classes :: "int list" where
  "vehicle_classes = [2, 3, 5, 7]"

definition keep_vehicle :: "detection \<Rightarrow> bool" where
  "keep_vehicle detection =
     (case detection of (x1, y1, x2, y2, score, class_id) \<Rightarrow>
        py_int class_id \<in> set vehicle_classes \<and> score > 0.5)"

definition detect_vehicles :: "bool \<Rightarrow> bool \<Rightarrow> detection list \<Rightarrow> detection list" where
  "detect_vehicles show_vehicles show_plates vehicle_detections_raw =
     (if show_vehicles \<or> show_plates then filter keep_vehicle vehicle_detections_raw else [])"

definition within_margin :: "detection \<Rightarrow> detection \<Rightarrow> bool" where
  \<comment> \<open>the test of the inner loop, for one vehicle and one plate detection\<close>
  "within_margin vehicle lp_detection =
     (case vehicle of (vx1, vy1, vx2, vy2, vs, vc) \<Rightarrow>
      case lp_detection of (x1_lp, y1_lp, x2_lp, y2_lp, score_lp, class_id_lp) \<Rightarrow>
        x1_lp \<ge> vx1 - 20 \<and> y1_lp \<ge> vy1 - 20 \<and> x2_lp \<le> vx2 + 20 \<and> y2_lp \<le> vy2 + 20)"

definition associated_vehicle :: "detection list \<Rightarrow> detection \<Rightarrow> detection option" where
  \<comment> \<open>the inner loop: the first vehicle that passes the test, then \<open>break\<close>\<close>
  "associated_vehicle detected_vehicles lp_detection =
     find (\<lambda>vehicle. within_margin vehicle lp_detection) detected_vehicles"

definition plate_row :: "detection \<Rightarrow> plate" where
  "plate_row lp = (case lp of (x1, y1, x2, y2, score, class_id) \<Rightarrow> (x1, y1, x2, y2, score))"

definition plate_coords :: "detection \<Rightarrow> coords" where
  "plate_coords lp = (case lp of (x1, y1, x2, y2, score, class_id) \<Rightarrow> (x1, y1, x2, y2))"

definition plate_score :: "detection \<Rightarrow> real" where
  "plate_score lp = (case lp of (x1, y1, x2, y2, score, class_id) \<Rightarrow> score)"

fun plate_loop ::
  "detection list \<Rightarrow> detection list \<Rightarrow> plate list \<times> coords option \<times> real
     \<Rightarrow> plate list \<times> coords option \<times> real" where
  "plate_loop detected_vehicles [] st = st"
| "plate_loop detected_vehicles (lp # rest)
     (detected_license_plates, best_license_plate_coords, best_score) =
     (case associated_vehicle detected_vehicles lp of
        None \<Rightarrow>
          plate_loop detected_vehicles rest
            (detected_license_plates, best_license_plate_coords, best_score)
      | Some vehicle \<Rightarrow>
          (if plate_score lp > best_score
           then plate_loop detected_vehicles rest
                  (detected_license_plates @ [plate_row lp], Some (plate_coords lp), plate_score lp)
           else plate_loop detected_vehicles rest
                  (detected_license_plates @ [plate_row lp], best_license_plate_coords,
                   best_score)))"

definition detect_frame ::
  "bool \<Rightarrow> bool \<Rightarrow> detection list \<Rightarrow> detection list
     \<Rightarrow> detection list \<times> plate list \<times> coords option" where
  \<comment> \<open>one frame: the vehicles kept, the plates kept, and \<open>best_license_plate_coords\<close>\<close>
  "detect_frame show_vehicles show_plates vehicle_detections_raw license_plates_raw =
     (let detected_vehicles = detect_vehicles show_vehicles show_plates vehicle_detections_raw;
          st = (if show_plates
                then plate_loop detected_vehicles license_plates_raw ([], None, 0)
                else ([], None, 0))
      in (detected_vehicles, fst st, fst (snd st)))"

definition associated :: "detection list \<Rightarrow> detection \<Rightarrow> bool" where
  \<comment> \<open>some kept vehicle's box, grown by 20 pixels on every side, contains the plate box\<close>
  "associated detected_vehicles lp = (\<exists>v \<in> set detected_vehicles. within_margin v lp)"

definition associated_plates :: "detection list \<Rightarrow> detection list \<Rightarrow> detection list" where
  \<comment> \<open>the plate detections of a frame that some kept vehicle contains, in detection order\<close>
  "associated_plates vehicle_detections_raw license_plates_raw =
     filter (associated (filter keep_vehicle vehicle_detections_raw)) license_plates_raw"

definition best_inv :: "detection list \<Rightarrow> coords option \<times> real \<Rightarrow> bool" where
  \<comment> \<open>what holds of \<open>best_license_plate_coords\<close> and \<open>best_score\<close> after the plates of
      the list have been seen\<close>
  "best_inv A bs = (case bs of (b, s) \<Rightarrow>
     (\<forall>p \<in> set A. plate_score p \<le> s) \<and>
     (case b of
        None \<Rightarrow> s = 0
      | Some c \<Rightarrow> \<exists>i < length A. c = plate_coords (A ! i) \<and> plate_score (A ! i) = s \<and> 0 < s \<and>
            (\<forall>j < i. plate_score (A ! j) < s)))"

section \<open>\<open>_order_points\<close> and \<open>_correct_plate_perspective\<close>\<close>

text \<open>
  The corner points come from \<open>approxPolyDP\<close> and are integer pixel coordinates inside
  the crop, so sums and differences are far from the 32-bit range and integers model
  them. \<open>np.argmin\<close> and \<open>np.argmax\<close> give the first index of the extreme value and raise
  on an empty array.
\<close>

type_synonym point = "int \<times> int"

fun first_index :: "int \<Rightarrow> int list \<Rightarrow> nat" where
  "first_index v [] = 0"
| "first_index v (x # xs) = (if x = v then 0 else Suc (first_index v xs))"

definition argmin :: "int list \<Rightarrow> nat option" where
  "argmin xs = (if xs = [] then None else Some (first_index (fold min xs (hd xs)) xs))"

definition argmax :: "int list \<Rightarrow> nat option" where
  "argmax xs = (if xs = [] then None else Some (first_index (fold max xs (hd xs)) xs))"

definition order_points :: "point list \<Rightarrow> (point \<times> point \<times> point \<times> point) option" where
  \<comment> \<open>\<open>s = pts.sum(axis=1)\<close> is x + y and \<open>diff = np.diff(pts, axis=1)\<close> is y - x;
      the result is (rect[0], rect[1], rect[2], rect[3])\<close>
  "order_points pts =
     (let s = map (\<lambda>(x, y). x + y) pts;
          diff = map (\<lambda>(x, y). y - x) pts
      in case (argmin s, argmax s, argmin diff, argmax diff) of
           (Some i0, Some i2, Some i1, Some i3) \<Rightarrow> Some (pts ! i0, pts ! i1, pts ! i2, pts ! i3)
         | _ \<Rightarrow> None)"

text \<open>
  An image is its shape and its pixel bytes. What OpenCV computes is taken as given: the
  contours of the edge image of a crop, the area of a contour, the polygon approximating
  a contour, and the pixels of the warp of a crop through the transform that sends the
  ordered corners to a rectangle of the given size.
\<close>

record image =
  rows :: nat
  cols :: nat
  pixels :: "nat list"

definition size_of :: "image \<Rightarrow> nat" where
  \<comment> \<open>\<open>.size\<close> of a three-channel array\<close>
  "size_of img = rows img * cols img * 3"

record opencv =
  find_contours :: "image \<Rightarrow> point list list"
  contour_area :: "point list \<Rightarrow> real"
  approx_poly :: "point list \<Rightarrow> point list"
  warp_pixels :: "image \<Rightarrow> point \<times> point \<times> point \<times> point \<Rightarrow> nat \<Rightarrow> nat \<Rightarrow> nat list"

fun isqrt_search :: "nat \<Rightarrow> nat \<Rightarrow> nat" where
  "isqrt_search n 0 = 0"
| "isqrt_search n (Suc k) = (if Suc k * Suc k \<le> n then Suc k else isqrt_search n k)"

definition isqrt :: "nat \<Rightarrow> nat" where
  \<comment> \<open>\<open>int(np.sqrt(n))\<close> for a natural number n\<close>
  "isqrt n = isqrt_search n n"

definition edge_length :: "point \<Rightarrow> point \<Rightarrow> nat" where
  \<comment> \<open>\<open>int(np.sqrt((p[0] - q[0]) ** 2 + (p[1] - q[1]) ** 2))\<close>\<close>
  "edge_length p q = isqrt (nat ((fst p - fst q)\<^sup>2 + (snd p - snd q)\<^sup>2))"

definition largest_contours :: "opencv \<Rightarrow> image \<Rightarrow> point list list" where
  \<comment> \<open>\<open>sorted(contours, key=cv2.contourArea, reverse=True)[:10]\<close>\<close>
  "largest_contours cv img =
     take 10 (rev (sort_key (contour_area cv) (rev (find_contours cv img))))"

definition qualifies :: "opencv \<Rightarrow> image \<Rightarrow> point list \<Rightarrow> bool" where
  \<comment> \<open>the two tests on the polygon of one contour\<close>
  "qualifies cv img c =
     (length (approx_poly cv c) = 4 \<and>
      contour_area cv (approx_poly cv c) > real (rows img * cols img) * 0.1)"

definition screen_cnt :: "opencv \<Rightarrow> image \<Rightarrow> point list option" where
  \<comment> \<open>the loop over the contours, left at the first polygon that passes\<close>
  "screen_cnt cv img =
     map_option (approx_poly cv) (find (qualifies cv img) (largest_contours cv img))"

definition max_width :: "point \<times> point \<times> point \<times> point \<Rightarrow> nat" where
  "max_width ordered_points =
     (case ordered_points of (p_tl, p_tr, p_br, p_bl) \<Rightarrow>
        max (edge_length p_br p_bl) (edge_length p_tr p_tl))"

definition max_height :: "point \<times> point \<times> point \<times> point \<Rightarrow> nat" where
  "max_height ordered_points =
     (case ordered_points of (p_tl, p_tr, p_br, p_bl) \<Rightarrow>
        max (edge_length p_tr p_br) (edge_length p_tl p_bl))"

datatype py_error = ValueError

definition correct_plate_perspective :: "opencv \<Rightarrow> image option \<Rightarrow> py_error + image option" where
  \<comment> \<open>\<open>Inl\<close> is an exception that leaves the function; the argument None is Python's None\<close>
  "correct_plate_perspective cv plate_crop_bgr =
     (case plate_crop_bgr of
        None \<Rightarrow> Inr None
      | Some crop \<Rightarrow>
          if size_of crop = 0 then Inr (Some crop)
          else
            (case screen_cnt cv crop of
               None \<Rightarrow> Inr (Some crop)
             | Some quad \<Rightarrow>
                 (case order_points quad of
                    None \<Rightarrow> Inl ValueError
                  | Some ordered_points \<Rightarrow>
                      if max_width ordered_points = 0 then Inr (Some crop)
                      else if max_height ordered_points = 0 then Inr (Some crop)
                      else
                        (let warped =
                           \<lparr>rows = max_height ordered_points, cols = max_width ordered_points,
                            pixels = warp_pixels cv crop ordered_points
                                       (max_width ordered_points) (max_height ordered_points)\<rparr>
                         in if rows warped < 20 \<or> cols warped < 50 then Inr (Some crop)
                            else Inr (Some warped)))))"

definition sample_cv :: opencv where
  \<comment> \<open>a concrete instance for evaluating the model: one square contour of side 3 and
      area 9, which is its own polygon\<close>
  "sample_cv = \<lparr>find_contours = (\<lambda>img. [[(0, 0), (3, 0), (3, 3), (0, 3)]]),
                contour_area = (\<lambda>c. 9), approx_poly = (\<lambda>c. c),
                warp_pixels = (\<lambda>img q w h. [])\<rparr>"

section \<open>\<open>SimpleOCRWorker\<close>: the background task\<close>

text \<open>
  The worker's fields are a record. What the OCR engine answers for a crop is an input of
  the model: the text TrOCR decodes, or the list of (text, confidence) results of
  EasyOCR, or an exception raised anywhere in preprocessing or inference. In
  \<open>_process_ocr\<close> the \<open>print\<close> of the \<open>except\<close> branch stands at the indentation of
  the \<open>if\<close> above it; the model reads it as the body of that \<open>if\<close>, as in the
  fast-plate worker. It changes no field.
\<close>

datatype 'a outcome = Raises | Returns 'a

record worker =
  ocr_engine_type :: string
  current_task :: "image option"
  latest_result :: string
  processing :: bool
  stop_event :: bool

definition new_worker :: "string \<Rightarrow> worker" where
  "new_worker engine =
     \<lparr>ocr_engine_type = engine, current_task = None, latest_result = ''No plate detected'',
      processing = False, stop_event = False\<rparr>"

type_synonym engine_replies = "string outcome \<times> (string \<times> real) list outcome"

definition read_license_plate_trocr :: "string outcome \<Rightarrow> string option \<times> real" where
  "read_license_plate_trocr decoded =
     (case decoded of
        Raises \<Rightarrow> (None, 0)
      | Returns raw_text_from_ocr \<Rightarrow>
          (case normalize_and_validate raw_text_from_ocr of
             Some formatted_plate \<Rightarrow>
               if formatted_plate \<noteq> [] then (Some formatted_plate, 1) else (None, 0)
           | None \<Rightarrow> (None, 0)))"

definition read_license_plate_easyocr ::
  "(string \<times> real) list outcome \<Rightarrow> string option \<times> real" where
  "read_license_plate_easyocr readtext =
     (case readtext of
        Raises \<Rightarrow> (None, 0)
      | Returns results \<Rightarrow>
          if results \<noteq> [] then
            (case normalize_and_validate (concat (map fst results)) of
               Some formatted_plate \<Rightarrow>
                 if formatted_plate \<noteq> []
                 then (Some formatted_plate, sum_list (map snd results) / real (length results))
                 else (None, 0)
             | None \<Rightarrow> (None, 0))
          else (None, 0))"

definition process_ocr_enter :: "worker \<Rightarrow> worker \<times> bool" where
  \<comment> \<open>the guard at the head of \<open>_process_ocr\<close>; the flag tells whether the task goes on\<close>
  "process_ocr_enter w =
     (if current_task w = None \<or> stop_event w then (w\<lparr>processing := False\<rparr>, False)
      else (w\<lparr>processing := True\<rparr>, True))"

definition process_ocr_read :: "engine_replies \<Rightarrow> worker \<Rightarrow> string option outcome" where
  \<comment> \<open>the dispatch on the engine; an unsupported engine raises ValueError\<close>
  "process_ocr_read replies w =
     (if ocr_engine_type w = ''trocr'' then Returns (fst (read_license_plate_trocr (fst replies)))
      else if ocr_engine_type w = ''easyocr''
        then Returns (fst (read_license_plate_easyocr (snd replies)))
      else Raises)"

definition process_ocr_finish :: "string option outcome \<Rightarrow> worker \<Rightarrow> worker" where
  \<comment> \<open>the rest of the \<open>try\<close> block, the \<open>except\<close> branch (it only prints) and \<open>finally\<close>\<close>
  "process_ocr_finish read w =
     (case read of
        Raises \<Rightarrow> w\<lparr>processing := False\<rparr>
      | Returns license_plate_text \<Rightarrow>
          if stop_event w then w\<lparr>processing := False\<rparr>
          else
            (case license_plate_text of
               Some text \<Rightarrow>
                 if text \<noteq> [] then w\<lparr>latest_result := text, processing := False\<rparr>
                 else w\<lparr>processing := False\<rparr>
             | None \<Rightarrow> w\<lparr>processing := False\<rparr>))"


subsection \<open>Threads\<close>

text \<open>
  \<open>process_latest\<close> starts a thread that runs \<open>_process_ocr\<close>; the caller and the
  threads interleave. A thread is at the head of \<open>_process_ocr\<close>, or past the guard and
  reading the plate, or holds what the read gave and is about to publish, or is
  finished. An action is one call of \<open>process_latest\<close>, one move of one thread, or
  setting the stop event.
\<close>

datatype task = AtEntry | Reading | HasText "string option outcome" | Finished

record system =
  the_worker :: worker
  threads :: "task list"

datatype action =
    ProcessLatest image
  | Enter nat
  | Read nat engine_replies
  | Publish nat
  | SetStop

definition new_system :: "string \<Rightarrow> system" where
  "new_system engine = \<lparr>the_worker = new_worker engine, threads = []\<rparr>"

definition process_latest :: "image \<Rightarrow> system \<Rightarrow> system" where
  "process_latest license_plate_crop sys =
     (if \<not> processing (the_worker sys) \<and> \<not> stop_event (the_worker sys)
      then sys\<lparr>the_worker := (the_worker sys)\<lparr>current_task := Some license_plate_crop\<rparr>,
               threads := threads sys @ [AtEntry]\<rparr>
      else sys)"

fun step :: "action \<Rightarrow> system \<Rightarrow> system" where
  "step (ProcessLatest crop) sys = process_latest crop sys"
| "step (Enter i) sys =
     (if i < length (threads sys) \<and> threads sys ! i = AtEntry
      then (case process_ocr_enter (the_worker sys) of
              (w', go) \<Rightarrow>
                sys\<lparr>the_worker := w',
                    threads := (threads sys)[i := (if go then Reading else Finished)]\<rparr>)
      else sys)"
| "step (Read i replies) sys =
     (if i < length (threads sys) \<and> threads sys ! i = Reading
      then sys\<lparr>threads := (threads sys)[i := HasText (process_ocr_read replies (the_worker sys))]\<rparr>
      else sys)"
| "step (Publish i) sys =
     (if i < length (threads sys)
      then (case threads sys ! i of
              HasText read \<Rightarrow>
                sys\<lparr>the_worker := process_ocr_finish read (the_worker sys),
                    threads := (threads sys)[i := Finished]\<rparr>
            | _ \<Rightarrow> sys)
      else sys)"
| "step SetStop sys = sys\<lparr>the_worker := (the_worker sys)\<lparr>stop_event := True\<rparr>\<rparr>"

definition run :: "action list \<Rightarrow> system \<Rightarrow> system" where
  \<comment> \<open>the actions in order, the first of the list first\<close>
  "run actions sys = fold step actions sys"


definition in_flight :: "system \<Rightarrow> nat" where
  \<comment> \<open>the background tasks started and not yet finished\<close>
  "in_flight sys = length (filter (\<lambda>t. t \<noteq> Finished) (threads sys))"

definition started :: "system \<Rightarrow> nat" where
  "started sys = length (threads sys)"




section \<open>\<open>FastPlateOCRWorker\<close>: the background task\<close>

datatype run_result = NoResult | Plates "string list"

record fp_worker =
  fp_recognizer_ready :: bool
  fp_current_task :: "image option"
  fp_latest_result :: string
  fp_processing :: bool
  fp_stop_event :: bool
  fp_debug_counter :: nat

definition new_fp_worker :: "bool \<Rightarrow> fp_worker" where
  \<comment> \<open>the argument tells whether \<open>_initialize_model\<close> got a recognizer\<close>
  "new_fp_worker ready =
     \<lparr>fp_recognizer_ready = ready, fp_current_task = None,
      fp_latest_result = ''No plate detected'', fp_processing = False, fp_stop_event = False,
      fp_debug_counter = 0\<rparr>"

definition digit_char :: "nat \<Rightarrow> char" where
  "digit_char d = ascii_digits ! d"

function string_of_nat :: "nat \<Rightarrow> string" where
  "string_of_nat n =
     (if n < 10 then [digit_char n] else string_of_nat (n div 10) @ [digit_char (n mod 10)])"
  by pat_completeness auto
termination
  by (relation "measure id") auto

definition raw_debug_text :: "string \<Rightarrow> string" where
  \<comment> \<open>\<open>f"Raw: {numeric_only} (len:{len(numeric_only)})"\<close>\<close>
  "raw_debug_text raw_text =
     (let numeric_only = digits_only (clean_text raw_text)
      in ''Raw: '' @ numeric_only @ '' (len:'' @ string_of_nat (length numeric_only) @ '')'')"

definition fp_publish :: "run_result \<Rightarrow> fp_worker \<Rightarrow> fp_worker" where
  \<comment> \<open>the branches after the second look at the stop event\<close>
  "fp_publish result w =
     (case result of
        Plates (first # others) \<Rightarrow>
          if first \<noteq> [] then
            (case fp_validate_and_format_plate first of
               Some formatted_text \<Rightarrow>
                 if formatted_text \<noteq> [] then w\<lparr>fp_latest_result := formatted_text\<rparr>
                 else w\<lparr>fp_latest_result := raw_debug_text first\<rparr>
             | None \<Rightarrow> w\<lparr>fp_latest_result := raw_debug_text first\<rparr>)
          else w\<lparr>fp_latest_result := ''No plate detected''\<rparr>
      | _ \<Rightarrow> w\<lparr>fp_latest_result := ''No plate detected''\<rparr>)"

definition fp_process_ocr :: "run_result outcome \<Rightarrow> bool \<Rightarrow> fp_worker \<Rightarrow> fp_worker" where
  \<comment> \<open>\<open>_process_ocr\<close>; \<open>stop_set\<close> tells whether the stop event was set while the
      recognizer ran\<close>
  "fp_process_ocr run_outcome stop_set w =
     (if fp_current_task w = None \<or> fp_stop_event w \<or> \<not> fp_recognizer_ready w
      then w\<lparr>fp_processing := False\<rparr>
      else
        (let w1 = w\<lparr>fp_processing := True, fp_debug_counter := fp_debug_counter w + 1,
                     fp_stop_event := stop_set\<rparr>
         in case run_outcome of
              Raises \<Rightarrow> w1\<lparr>fp_processing := False\<rparr>
            | Returns result \<Rightarrow>
                if fp_stop_event w1 then w1\<lparr>fp_processing := False\<rparr>
                else (fp_publish result w1)\<lparr>fp_processing := False\<rparr>))"

section \<open>Properties of the validators\<close>

lemma by_rules_None_iff:
  "validate_and_format_plate_by_rules raw n = None \<longleftrightarrow> length n \<noteq> 7 \<and> length n \<noteq> 8"
  by (simp add: validate_and_format_plate_by_rules_def Let_def)

lemma fp_by_rules_None_iff:
  "fp_validate_and_format_plate_by_rules raw n = None
     \<longleftrightarrow> length n \<noteq> 7 \<and> length n \<noteq> 8 \<and> length n \<noteq> 9"
  by (simp add: fp_validate_and_format_plate_by_rules_def Let_def)

lemma fp_validate_None_iff:
  "fp_validate_and_format_plate raw = None
     \<longleftrightarrow> length (digits_only (clean_text raw)) \<notin> {7, 8, 9}"
proof (cases "raw = []")
  case True
  then show ?thesis
    by (simp add: fp_validate_and_format_plate_def clean_text_def strip_def digits_only_def)
next
  case False
  then show ?thesis
    by (auto simp add: fp_validate_and_format_plate_def Let_def fp_by_rules_None_iff)
qed

lemma punctuation_all: "list_all (\<lambda>c. \<not> is_digit (correct_char c)) punctuation"
  by code_simp

lemma punctuation_not_digit: "c \<in> set punctuation \<Longrightarrow> \<not> is_digit (correct_char c)"
  using punctuation_all by (simp add: list_all_iff)

lemma numeric_text_punctuation: "set raw \<subseteq> set punctuation \<Longrightarrow> numeric_text raw = []"
  by (auto simp add: numeric_text_def digits_only_def corrected_raw_text_def filter_empty_conv
      dest: punctuation_not_digit)

lemma normalize_and_validate_None_iff:
  "normalize_and_validate raw = None
     \<longleftrightarrow> length (numeric_text raw) \<noteq> 7 \<and> length (numeric_text raw) \<noteq> 8"
  by (simp add: normalize_and_validate_def by_rules_None_iff)

subsection \<open>C2: which lengths are rejected\<close>

text \<open>
  C2 as stated: in both validators the result is None exactly when the number of digits is
  outside 7, 8, 9. The validator of python\_yolo.py has no branch for nine digits: for the
  raw text 123456789, whose nine digits are an accepted length of the claim, it returns
  None.
\<close>

theorem nine_digits_rejected_by_simple_worker:
  "length (numeric_text ''123456789'') = 9 \<and>
   normalize_and_validate ''123456789'' = None \<and>
   validate_and_format_plate_by_rules ''123456789'' ''123456789'' = None"
  by code_simp

text \<open>
  C2, amended: the validator of python\_yolo.py (on its own and after normalisation of the
  raw text) returns None exactly when the number of digits is neither 7 nor 8; the
  fast-plate validator returns None exactly when the number of digits is outside 7, 8, 9.
  Every other length gives a formatted string.
\<close>

theorem validators_reject_exactly:
  "(validate_and_format_plate_by_rules raw_ocr_text numeric = None
      \<longleftrightarrow> length numeric \<notin> {7, 8}) \<and>
   (normalize_and_validate raw = None \<longleftrightarrow> length (numeric_text raw) \<notin> {7, 8}) \<and>
   (fp_validate_and_format_plate raw = None
      \<longleftrightarrow> length (digits_only (clean_text raw)) \<notin> {7, 8, 9})"
  using by_rules_None_iff [of raw_ocr_text numeric] normalize_and_validate_None_iff [of raw]
    fp_validate_None_iff [of raw]
  by simp

theorem validators_reject_exactly_witness:
  "normalize_and_validate ''AB-12'' = None \<and> length (numeric_text ''AB-12'') = 4 \<and>
   fp_validate_and_format_plate ''12345678901'' = None \<and>
   fp_validate_and_format_plate ''1234567__'' \<noteq> None"
proof -
  have a: "length (numeric_text ''AB-12'') = 4"
    by code_simp
  have b: "length (digits_only (clean_text ''12345678901'')) = 11"
    by code_simp
  have c: "length (digits_only (clean_text ''1234567__'')) = 7"
    by code_simp
  note t = validators_reject_exactly [of "[]" "[]" "''AB-12''"]
  note u = validators_reject_exactly [of "[]" "[]" "''12345678901''"]
  note v = validators_reject_exactly [of "[]" "[]" "''1234567__''"]
  from t a have 1: "normalize_and_validate ''AB-12'' = None"
    by force
  from u b have 2: "fp_validate_and_format_plate ''12345678901'' = None"
    by force
  from v c have 3: "fp_validate_and_format_plate ''1234567__'' \<noteq> None"
    by force
  from 1 a 2 3 show ?thesis
    by blast
qed

subsection \<open>C3: the separator hint for seven digits\<close>

text \<open>
  C3: a raw text of groups of 2, 3 and 2 characters separated by whitespace matches the
  NN-NNN-NN layout only, so the claim gives 12-345-67 for it. In the code the separator
  class is written \<open>[-\s]\<close> in a raw string, which is a hyphen, a backslash or the
  letter s, and not whitespace: no pattern matches and both layouts are returned. With
  hyphens the hint works as the claim says.
\<close>

theorem whitespace_separator_gives_no_hint:
  "numeric_text ''12 345 67'' = ''1234567'' \<and>
   \<not> fullmatch nn_nnn_nn_raw_re ''12 345 67'' \<and>
   \<not> fullmatch n_nnnn_nn_raw_re ''12 345 67'' \<and>
   validate_and_format_plate_by_rules ''12 345 67'' ''1234567''
     = Some ''12-345-67 or 1-2345-67'' \<and>
   normalize_and_validate ''12 345 67'' = Some ''12-345-67 or 1-2345-67'' \<and>
   normalize_and_validate ''12-345-67'' = Some ''12-345-67''"
  by code_simp

subsection \<open>C4: eight and nine digits\<close>

text \<open>
  C4: for every text of eight digits both validators return the layout NNN-NN-NNN, and for
  every text of nine digits the fast-plate validator returns the text without its first
  digit and the text without its last digit, in that order, each in the layout NNN-NN-NNN
  and joined by "or". 12345678 gives 123-45-678 and 123456789 gives
  234-56-789 or 123-45-678.
\<close>

theorem eight_and_nine_digit_layouts:
  "(length n = 8 \<longrightarrow>
      validate_and_format_plate_by_rules raw n
        = Some [n ! 0, n ! 1, n ! 2, CHR ''-'', n ! 3, n ! 4, CHR ''-'', n ! 5, n ! 6, n ! 7] \<and>
      fp_validate_and_format_plate_by_rules raw n
        = Some [n ! 0, n ! 1, n ! 2, CHR ''-'', n ! 3, n ! 4, CHR ''-'', n ! 5, n ! 6, n ! 7]) \<and>
   (length n = 9 \<longrightarrow>
      fp_validate_and_format_plate_by_rules raw n
        = Some ([n ! 1, n ! 2, n ! 3, CHR ''-'', n ! 4, n ! 5, CHR ''-'', n ! 6, n ! 7, n ! 8]
                @ '' or '' @
                [n ! 0, n ! 1, n ! 2, CHR ''-'', n ! 3, n ! 4, CHR ''-'', n ! 5, n ! 6, n ! 7])) \<and>
   normalize_and_validate ''12345678'' = Some ''123-45-678'' \<and>
   fp_validate_and_format_plate ''12345678'' = Some ''123-45-678'' \<and>
   fp_validate_and_format_plate ''123456789'' = Some ''234-56-789 or 123-45-678''"
proof -
  have eight: "length n = 8 \<longrightarrow>
      validate_and_format_plate_by_rules raw n
        = Some [n ! 0, n ! 1, n ! 2, CHR ''-'', n ! 3, n ! 4, CHR ''-'', n ! 5, n ! 6, n ! 7] \<and>
      fp_validate_and_format_plate_by_rules raw n
        = Some [n ! 0, n ! 1, n ! 2, CHR ''-'', n ! 3, n ! 4, CHR ''-'', n ! 5, n ! 6, n ! 7]"
    by (auto simp add: validate_and_format_plate_by_rules_def
        fp_validate_and_format_plate_by_rules_def format_nnn_nn_nnn_def numeral_eq_Suc
        length_Suc_conv)
  have nine: "length n = 9 \<longrightarrow>
      fp_validate_and_format_plate_by_rules raw n
        = Some ([n ! 1, n ! 2, n ! 3, CHR ''-'', n ! 4, n ! 5, CHR ''-'', n ! 6, n ! 7, n ! 8]
                @ '' or '' @
                [n ! 0, n ! 1, n ! 2, CHR ''-'', n ! 3, n ! 4, CHR ''-'', n ! 5, n ! 6, n ! 7])"
    by (auto simp add: fp_validate_and_format_plate_by_rules_def format_nnn_nn_nnn_def
        numeral_eq_Suc length_Suc_conv)
  have ex1: "normalize_and_validate ''12345678'' = Some ''123-45-678''"
    by code_simp
  have ex2: "fp_validate_and_format_plate ''12345678'' = Some ''123-45-678''"
    by code_simp
  have ex3: "fp_validate_and_format_plate ''123456789'' = Some ''234-56-789 or 123-45-678''"
    by code_simp
  from eight nine ex1 ex2 ex3 show ?thesis
    by blast
qed

theorem eight_and_nine_digit_layouts_witness:
  "validate_and_format_plate_by_rules ''x'' ''00112233'' = Some ''001-12-233'' \<and>
   fp_validate_and_format_plate_by_rules ''x'' ''987654321''
     = Some ''876-54-321 or 987-65-432''"
proof -
  have l8: "length ''00112233'' = 8"
    by simp
  have l9: "length ''987654321'' = 9"
    by simp
  from eight_and_nine_digit_layouts [of "''00112233''" "''x''"] l8
  have a: "validate_and_format_plate_by_rules ''x'' ''00112233''
      = Some [''00112233'' ! 0, ''00112233'' ! 1, ''00112233'' ! 2, CHR ''-'', ''00112233'' ! 3,
              ''00112233'' ! 4, CHR ''-'', ''00112233'' ! 5, ''00112233'' ! 6, ''00112233'' ! 7]"
    by blast
  from eight_and_nine_digit_layouts [of "''987654321''" "''x''"] l9
  have b: "fp_validate_and_format_plate_by_rules ''x'' ''987654321''
      = Some ([''987654321'' ! 1, ''987654321'' ! 2, ''987654321'' ! 3, CHR ''-'',
               ''987654321'' ! 4, ''987654321'' ! 5, CHR ''-'', ''987654321'' ! 6,
               ''987654321'' ! 7, ''987654321'' ! 8]
              @ '' or '' @
              [''987654321'' ! 0, ''987654321'' ! 1, ''987654321'' ! 2, CHR ''-'',
               ''987654321'' ! 3, ''987654321'' ! 4, CHR ''-'', ''987654321'' ! 5,
               ''987654321'' ! 6, ''987654321'' ! 7])"
    by blast
  from a b show ?thesis
    by simp
qed

subsection \<open>C7: normalisation followed by validation\<close>

text \<open>
  C7 as stated: the result is None for the empty string, for a string of punctuation and
  for any garbage of length 50. A string of length 50 in which exactly seven characters
  normalise to a digit is formatted: here O, I, S, B, Z, G and Q between punctuation
  give 0158260.
\<close>

theorem fifty_characters_accepted:
  "length ''~~O#I@@S!!B%%Z^^G&&Q**(((((((((((((((((((((((((((('' = 50 \<and>
   normalize_and_validate ''~~O#I@@S!!B%%Z^^G&&Q**((((((((((((((((((((((((((((''
     = Some ''01-582-60 or 0-1582-60''"
  by code_simp

text \<open>
  C7, amended: normalisation followed by validation is defined for every string and gives
  None or one of the formatted strings; it gives None for the empty string and for every
  string of punctuation; for every other string, of length 50 or not, it gives None
  exactly when the number of characters that normalise to a digit is neither 7 nor 8.
\<close>

theorem normalize_and_validate_results:
  "normalize_and_validate [] = None \<and>
   (set raw \<subseteq> set punctuation \<longrightarrow> normalize_and_validate raw = None) \<and>
   (normalize_and_validate raw = None
      \<longleftrightarrow> length (numeric_text raw) \<noteq> 7 \<and> length (numeric_text raw) \<noteq> 8) \<and>
   (normalize_and_validate raw = None \<or>
    normalize_and_validate raw = Some (format_nn_nnn_nn (numeric_text raw)) \<or>
    normalize_and_validate raw = Some (format_n_nnnn_nn (numeric_text raw)) \<or>
    normalize_and_validate raw
      = Some (format_nn_nnn_nn (numeric_text raw) @ '' or '' @ format_n_nnnn_nn (numeric_text raw)) \<or>
    normalize_and_validate raw = Some (format_nnn_nn_nnn (numeric_text raw)))"
proof -
  have empty: "normalize_and_validate [] = None"
    by code_simp
  have punct: "set raw \<subseteq> set punctuation \<longrightarrow> normalize_and_validate raw = None"
    by (simp add: normalize_and_validate_None_iff numeric_text_punctuation)
  have shape: "normalize_and_validate raw = None \<or>
    normalize_and_validate raw = Some (format_nn_nnn_nn (numeric_text raw)) \<or>
    normalize_and_validate raw = Some (format_n_nnnn_nn (numeric_text raw)) \<or>
    normalize_and_validate raw
      = Some (format_nn_nnn_nn (numeric_text raw) @ '' or '' @ format_n_nnnn_nn (numeric_text raw)) \<or>
    normalize_and_validate raw = Some (format_nnn_nn_nnn (numeric_text raw))"
    by (simp add: normalize_and_validate_def validate_and_format_plate_by_rules_def Let_def)
  from empty punct shape normalize_and_validate_None_iff [of raw] show ?thesis
    by blast
qed

theorem normalize_and_validate_results_witness:
  "set ''?!...--;'' \<subseteq> set punctuation \<and> normalize_and_validate ''?!...--;'' = None"
proof -
  have h: "set ''?!...--;'' \<subseteq> set punctuation"
    by (simp add: punctuation_def)
  from normalize_and_validate_results [of "''?!...--;''"] h
  have "normalize_and_validate ''?!...--;'' = None"
    by blast
  with h show ?thesis
    by blast
qed

section \<open>Properties of the detection step\<close>

lemma associated_vehicle_None_iff:
  "associated_vehicle vs lp = None \<longleftrightarrow> \<not> associated vs lp"
  unfolding associated_vehicle_def associated_def find_None_iff by blast

lemma plate_loop_append:
  "plate_loop vs (xs @ ys) st = plate_loop vs ys (plate_loop vs xs st)"
proof (induction xs arbitrary: st)
  case Nil
  then show ?case by simp
next
  case (Cons lp xs)
  obtain ps b s where st: "st = (ps, b, s)"
    by (cases st) auto
  show ?case
    unfolding st by (simp add: Cons.IH split: option.splits)
qed

lemma plate_loop_filter:
  "plate_loop vs lps st = plate_loop vs (filter (associated vs) lps) st"
proof (induction lps arbitrary: st)
  case Nil
  then show ?case by simp
next
  case (Cons lp lps)
  obtain ps b s where st: "st = (ps, b, s)"
    by (cases st) auto
  show ?case
  proof (cases "associated vs lp")
    case True
    then obtain v where "associated_vehicle vs lp = Some v"
      using associated_vehicle_None_iff [of vs lp] by auto
    with True show ?thesis
      unfolding st using Cons.IH by simp
  next
    case False
    then have "associated_vehicle vs lp = None"
      by (simp add: associated_vehicle_None_iff)
    with False show ?thesis
      unfolding st using Cons.IH by simp
  qed
qed

lemma plate_loop_plates:
  "fst (plate_loop vs lps (ps, b, s)) = ps @ map plate_row (filter (associated vs) lps)"
proof (induction lps arbitrary: ps b s)
  case Nil
  then show ?case by simp
next
  case (Cons lp lps)
  show ?case
  proof (cases "associated_vehicle vs lp")
    case None
    then have "\<not> associated vs lp"
      by (simp add: associated_vehicle_None_iff)
    with None show ?thesis
      using Cons.IH by simp
  next
    case (Some v)
    then have "associated vs lp"
      using associated_vehicle_None_iff [of vs lp] by auto
    with Some show ?thesis
      using Cons.IH by simp
  qed
qed

lemma plate_loop_best:
  "\<forall>lp \<in> set A. associated vs lp \<Longrightarrow> best_inv A (snd (plate_loop vs A ([], None, 0)))"
proof (induction A rule: rev_induct)
  case Nil
  then show ?case by (simp add: best_inv_def)
next
  case (snoc lp A)
  obtain ps b s where run: "plate_loop vs A ([], None, 0) = (ps, b, s)"
    by (cases "plate_loop vs A ([], None, 0)") auto
  from snoc have inv: "best_inv A (b, s)"
    by (simp add: run)
  from snoc.prems obtain v where v: "associated_vehicle vs lp = Some v"
    using associated_vehicle_None_iff [of vs lp] by auto
  show ?case
  proof (cases "plate_score lp > s")
    case True
    from inv have le: "\<forall>p \<in> set A. plate_score p \<le> s"
      by (simp add: best_inv_def)
    then have below: "\<forall>j < length A. plate_score (A ! j) < plate_score lp"
      using True by (metis nth_mem le_less_trans)
    from inv have "0 \<le> s"
      by (auto simp add: best_inv_def split: option.splits)
    with True have pos: "0 < plate_score lp"
      by simp
    have "\<exists>i < length (A @ [lp]). plate_coords lp = plate_coords ((A @ [lp]) ! i) \<and>
        plate_score ((A @ [lp]) ! i) = plate_score lp \<and> 0 < plate_score lp \<and>
        (\<forall>j < i. plate_score ((A @ [lp]) ! j) < plate_score lp)"
      using below pos by (intro exI [of _ "length A"]) (simp add: nth_append)
    moreover have "\<forall>p \<in> set (A @ [lp]). plate_score p \<le> plate_score lp"
      using le True by force
    ultimately have "best_inv (A @ [lp]) (Some (plate_coords lp), plate_score lp)"
      by (simp add: best_inv_def)
    then show ?thesis
      using True v by (simp add: plate_loop_append run)
  next
    case False
    from inv have le: "\<forall>p \<in> set A. plate_score p \<le> s"
      by (simp add: best_inv_def)
    with False have le': "\<forall>p \<in> set (A @ [lp]). plate_score p \<le> s"
      by force
    have "best_inv (A @ [lp]) (b, s)"
    proof (cases b)
      case None
      with inv le' show ?thesis
        by (simp add: best_inv_def)
    next
      case (Some c)
      with inv obtain i where i: "i < length A" "c = plate_coords (A ! i)"
        "plate_score (A ! i) = s" "0 < s" "\<forall>j < i. plate_score (A ! j) < s"
        by (auto simp add: best_inv_def)
      then have "i < length (A @ [lp]) \<and> c = plate_coords ((A @ [lp]) ! i) \<and>
          plate_score ((A @ [lp]) ! i) = s \<and> 0 < s \<and>
          (\<forall>j < i. plate_score ((A @ [lp]) ! j) < s)"
        by (simp add: nth_append)
      then have "\<exists>i < length (A @ [lp]). c = plate_coords ((A @ [lp]) ! i) \<and>
          plate_score ((A @ [lp]) ! i) = s \<and> 0 < s \<and>
          (\<forall>j < i. plate_score ((A @ [lp]) ! j) < s)"
        by blast
      with Some le' show ?thesis
        unfolding best_inv_def by simp
    qed
    then show ?thesis
      using False v by (simp add: plate_loop_append run)
  qed
qed


lemma detect_frame_plates:
  "fst (snd (detect_frame sv True vraw lraw)) = map plate_row (associated_plates vraw lraw)"
  by (simp add: detect_frame_def detect_vehicles_def associated_plates_def plate_loop_plates
      Let_def)

lemma detect_frame_best_inv:
  "\<exists>s. best_inv (associated_plates vraw lraw) (snd (snd (detect_frame sv True vraw lraw)), s)"
proof -
  let ?vs = "filter keep_vehicle vraw"
  let ?A = "associated_plates vraw lraw"
  have "\<forall>lp \<in> set ?A. associated ?vs lp"
    by (simp add: associated_plates_def)
  then have inv: "best_inv ?A (snd (plate_loop ?vs ?A ([], None, 0)))"
    by (rule plate_loop_best)
  have "plate_loop ?vs lraw ([], None, 0) = plate_loop ?vs ?A ([], None, 0)"
    unfolding associated_plates_def by (rule plate_loop_filter)
  then have "snd (snd (detect_frame sv True vraw lraw))
      = fst (snd (plate_loop ?vs ?A ([], None, 0)))"
    by (simp add: detect_frame_def detect_vehicles_def Let_def)
  with inv show ?thesis
    by (metis prod.collapse)
qed

lemma detect_frame_no_plates:
  "fst (snd (detect_frame sv False vraw lraw)) = [] \<and>
   snd (snd (detect_frame sv False vraw lraw)) = None"
  by (simp add: detect_frame_def)

subsection \<open>C1: association and the best plate\<close>

text \<open>
  C1 as stated: BestPlate is None only when no associated plate exists. The loop starts
  with \<open>best_score = 0\<close> and replaces the best plate only on a strictly greater score, so
  a frame whose only associated plate has confidence 0 keeps the plate in the list and
  has no best plate.
\<close>

theorem associated_plate_without_best:
  "detect_frame True True [(0, 0, 100, 100, 0.9, 2)] [(10, 10, 20, 20, 0, 0)]
     = ([(0, 0, 100, 100, 0.9, 2)], [(10, 10, 20, 20, 0)], None)"
  by (simp add: detect_frame_def detect_vehicles_def keep_vehicle_def py_int_def
      vehicle_classes_def associated_vehicle_def within_margin_def plate_row_def
      plate_score_def plate_coords_def)

text \<open>
  C1, amended: when plates are shown, the plates kept are, in detection order, exactly the
  plate detections whose box lies inside the box, grown by 20 pixels on every side, of
  some vehicle detection with class in 2, 3, 5, 7 and confidence above 0.5; when plates
  are not shown nothing is kept and there is no best plate. The best plate is None
  exactly when no associated plate has a confidence above 0; otherwise it is the box of
  the associated plate of highest confidence, the first one in detection order among
  equals. The result is a function of the two detection lists.
\<close>

theorem association_and_best_plate:
  "fst (snd (detect_frame sv True vraw lraw)) = map plate_row (associated_plates vraw lraw) \<and>
   (p \<in> set (fst (snd (detect_frame sv True vraw lraw))) \<longleftrightarrow>
      (\<exists>lp \<in> set lraw. p = plate_row lp \<and>
         (\<exists>v \<in> set vraw. keep_vehicle v \<and> within_margin v lp))) \<and>
   fst (snd (detect_frame sv False vraw lraw)) = [] \<and>
   snd (snd (detect_frame sv False vraw lraw)) = None \<and>
   (snd (snd (detect_frame sv True vraw lraw)) = None \<longleftrightarrow>
      (\<forall>lp \<in> set (associated_plates vraw lraw). plate_score lp \<le> 0)) \<and>
   (\<forall>c. snd (snd (detect_frame sv True vraw lraw)) = Some c \<longrightarrow>
      (\<exists>i < length (associated_plates vraw lraw).
         c = plate_coords (associated_plates vraw lraw ! i) \<and>
         0 < plate_score (associated_plates vraw lraw ! i) \<and>
         (\<forall>j < length (associated_plates vraw lraw).
            plate_score (associated_plates vraw lraw ! j)
              \<le> plate_score (associated_plates vraw lraw ! i)) \<and>
         (\<forall>j < i. plate_score (associated_plates vraw lraw ! j)
              < plate_score (associated_plates vraw lraw ! i))))"
proof -
  let ?A = "associated_plates vraw lraw"
  let ?best = "snd (snd (detect_frame sv True vraw lraw))"
  obtain s where inv: "best_inv ?A (?best, s)"
    using detect_frame_best_inv by blast
  then have le: "\<forall>p \<in> set ?A. plate_score p \<le> s"
    by (simp add: best_inv_def)
  have kept: "p \<in> set (fst (snd (detect_frame sv True vraw lraw))) \<longleftrightarrow>
      (\<exists>lp \<in> set lraw. p = plate_row lp \<and>
         (\<exists>v \<in> set vraw. keep_vehicle v \<and> within_margin v lp))"
  proof -
    have "set (associated_plates vraw lraw)
        = {lp \<in> set lraw. \<exists>v \<in> set vraw. keep_vehicle v \<and> within_margin v lp}"
      unfolding associated_plates_def associated_def set_filter by blast
    then show ?thesis
      unfolding detect_frame_plates set_map image_iff by blast
  qed
  have none: "?best = None \<longleftrightarrow> (\<forall>lp \<in> set ?A. plate_score lp \<le> 0)"
  proof
    assume "?best = None"
    with inv have "s = 0"
      by (simp add: best_inv_def)
    with le show "\<forall>lp \<in> set ?A. plate_score lp \<le> 0"
      by simp
  next
    assume low: "\<forall>lp \<in> set ?A. plate_score lp \<le> 0"
    show "?best = None"
    proof (rule ccontr)
      assume "?best \<noteq> None"
      then obtain c where "?best = Some c"
        by auto
      with inv obtain i where "i < length ?A" "plate_score (?A ! i) = s" "0 < s"
        by (auto simp add: best_inv_def)
      with low show False
        by (metis nth_mem not_le)
    qed
  qed
  have some: "\<forall>c. ?best = Some c \<longrightarrow>
      (\<exists>i < length ?A. c = plate_coords (?A ! i) \<and> 0 < plate_score (?A ! i) \<and>
         (\<forall>j < length ?A. plate_score (?A ! j) \<le> plate_score (?A ! i)) \<and>
         (\<forall>j < i. plate_score (?A ! j) < plate_score (?A ! i)))"
  proof (intro allI impI)
    fix c
    assume "?best = Some c"
    with inv obtain i where i: "i < length ?A" "c = plate_coords (?A ! i)"
      "plate_score (?A ! i) = s" "0 < s" "\<forall>j < i. plate_score (?A ! j) < s"
      by (auto simp add: best_inv_def)
    from le have "\<forall>j < length ?A. plate_score (?A ! j) \<le> s"
      by simp
    with i show "\<exists>i < length ?A. c = plate_coords (?A ! i) \<and> 0 < plate_score (?A ! i) \<and>
         (\<forall>j < length ?A. plate_score (?A ! j) \<le> plate_score (?A ! i)) \<and>
         (\<forall>j < i. plate_score (?A ! j) < plate_score (?A ! i))"
      by auto
  qed
  from detect_frame_plates [of sv vraw lraw] kept detect_frame_no_plates [of sv vraw lraw]
    none some
  show ?thesis
    by blast
qed

theorem association_and_best_plate_witness:
  "snd (snd (detect_frame False True
      [(0, 0, 100, 100, 0.9, 2), (200, 200, 300, 300, 0.4, 2)]
      [(10, 10, 20, 20, 0.6, 0), (210, 210, 220, 220, 0.9, 0), (-20, -20, 30, 30, 0.8, 0),
       (50, 50, 80, 80, 0.8, 0)])) = Some (-20, -20, 30, 30) \<and>
   (\<exists>i < length (associated_plates
        [(0, 0, 100, 100, 0.9, 2), (200, 200, 300, 300, 0.4, 2)]
        [(10, 10, 20, 20, 0.6, 0), (210, 210, 220, 220, 0.9, 0), (-20, -20, 30, 30, 0.8, 0),
         (50, 50, 80, 80, 0.8, 0)]).
      (-20, -20, 30, 30) = plate_coords (associated_plates
        [(0, 0, 100, 100, 0.9, 2), (200, 200, 300, 300, 0.4, 2)]
        [(10, 10, 20, 20, 0.6, 0), (210, 210, 220, 220, 0.9, 0), (-20, -20, 30, 30, 0.8, 0),
         (50, 50, 80, 80, 0.8, 0)] ! i) \<and>
      (\<forall>j < i. plate_score (associated_plates
        [(0, 0, 100, 100, 0.9, 2), (200, 200, 300, 300, 0.4, 2)]
        [(10, 10, 20, 20, 0.6, 0), (210, 210, 220, 220, 0.9, 0), (-20, -20, 30, 30, 0.8, 0),
         (50, 50, 80, 80, 0.8, 0)] ! j)
        < plate_score (associated_plates
        [(0, 0, 100, 100, 0.9, 2), (200, 200, 300, 300, 0.4, 2)]
        [(10, 10, 20, 20, 0.6, 0), (210, 210, 220, 220, 0.9, 0), (-20, -20, 30, 30, 0.8, 0),
         (50, 50, 80, 80, 0.8, 0)] ! i)))"
proof -
  have best: "snd (snd (detect_frame False True
      [(0, 0, 100, 100, 0.9, 2), (200, 200, 300, 300, 0.4, 2)]
      [(10, 10, 20, 20, 0.6, 0), (210, 210, 220, 220, 0.9, 0), (-20, -20, 30, 30, 0.8, 0),
       (50, 50, 80, 80, 0.8, 0)])) = Some (-20, -20, 30, 30)"
    by (simp add: detect_frame_def detect_vehicles_def keep_vehicle_def py_int_def
        vehicle_classes_def associated_vehicle_def within_margin_def plate_row_def
        plate_score_def plate_coords_def)
  from association_and_best_plate [where sv = False
      and vraw = "[(0, 0, 100, 100, 0.9, 2), (200, 200, 300, 300, 0.4, 2)]"
      and lraw = "[(10, 10, 20, 20, 0.6, 0), (210, 210, 220, 220, 0.9, 0),
        (-20, -20, 30, 30, 0.8, 0), (50, 50, 80, 80, 0.8, 0)]"] best
  show ?thesis
    by blast
qed

section \<open>Properties of the plate geometry\<close>

lemma first_index_nth:
  "v \<in> set xs \<Longrightarrow> first_index v xs < length xs \<and> xs ! first_index v xs = v"
  by (induction xs) auto

lemma fold_min_le_start: "fold min xs (a::int) \<le> a"
proof (induction xs arbitrary: a)
  case Nil
  then show ?case by simp
next
  case (Cons y ys)
  have "fold min ys (min y a) \<le> min y a"
    by (rule Cons.IH)
  then show ?case by simp
qed

lemma fold_min_le: "x \<in> set xs \<Longrightarrow> fold min xs (a::int) \<le> x"
proof (induction xs arbitrary: a)
  case Nil
  then show ?case by simp
next
  case (Cons y ys)
  show ?case
  proof (cases "x = y")
    case True
    have "fold min ys (min y a) \<le> min y a"
      by (rule fold_min_le_start)
    with True show ?thesis by simp
  next
    case False
    with Cons show ?thesis by simp
  qed
qed

lemma fold_min_mem: "fold min xs (a::int) \<in> insert a (set xs)"
  by (induction xs arbitrary: a) (auto simp add: min_def)

lemma fold_max_ge_start: "a \<le> fold max xs (a::int)"
proof (induction xs arbitrary: a)
  case Nil
  then show ?case by simp
next
  case (Cons y ys)
  have "max y a \<le> fold max ys (max y a)"
    by (rule Cons.IH)
  then show ?case by simp
qed

lemma fold_max_ge: "x \<in> set xs \<Longrightarrow> x \<le> fold max xs (a::int)"
proof (induction xs arbitrary: a)
  case Nil
  then show ?case by simp
next
  case (Cons y ys)
  show ?case
  proof (cases "x = y")
    case True
    have "max y a \<le> fold max ys (max y a)"
      by (rule fold_max_ge_start)
    with True show ?thesis by simp
  next
    case False
    with Cons show ?thesis by simp
  qed
qed

lemma fold_max_mem: "fold max xs (a::int) \<in> insert a (set xs)"
  by (induction xs arbitrary: a) (auto simp add: max_def)

lemma argmin_spec:
  assumes "xs \<noteq> []"
  shows "\<exists>i. argmin xs = Some i \<and> i < length xs \<and> (\<forall>x \<in> set xs. xs ! i \<le> x)"
proof -
  let ?m = "fold min xs (hd xs)"
  from assms have "hd xs \<in> set xs" by simp
  with fold_min_mem [of xs "hd xs"] have "?m \<in> set xs" by auto
  then have "first_index ?m xs < length xs \<and> xs ! first_index ?m xs = ?m"
    by (rule first_index_nth)
  moreover have "\<forall>x \<in> set xs. ?m \<le> x"
    by (simp add: fold_min_le)
  ultimately show ?thesis
    using assms by (simp add: argmin_def)
qed

lemma argmax_spec:
  assumes "xs \<noteq> []"
  shows "\<exists>i. argmax xs = Some i \<and> i < length xs \<and> (\<forall>x \<in> set xs. x \<le> xs ! i)"
proof -
  let ?m = "fold max xs (hd xs)"
  from assms have "hd xs \<in> set xs" by simp
  with fold_max_mem [of xs "hd xs"] have "?m \<in> set xs" by auto
  then have "first_index ?m xs < length xs \<and> xs ! first_index ?m xs = ?m"
    by (rule first_index_nth)
  moreover have "\<forall>x \<in> set xs. x \<le> ?m"
    by (simp add: fold_max_ge)
  ultimately show ?thesis
    using assms by (simp add: argmax_def)
qed

lemma order_points_spec:
  assumes "pts \<noteq> []"
  shows "\<exists>p_tl p_tr p_br p_bl. order_points pts = Some (p_tl, p_tr, p_br, p_bl) \<and>
      p_tl \<in> set pts \<and> p_tr \<in> set pts \<and> p_br \<in> set pts \<and> p_bl \<in> set pts \<and>
      (\<forall>p \<in> set pts. fst p_tl + snd p_tl \<le> fst p + snd p) \<and>
      (\<forall>p \<in> set pts. fst p + snd p \<le> fst p_br + snd p_br) \<and>
      (\<forall>p \<in> set pts. fst p - snd p \<le> fst p_tr - snd p_tr) \<and>
      (\<forall>p \<in> set pts. fst p_bl - snd p_bl \<le> fst p - snd p)"
proof -
  let ?s = "map (\<lambda>(x, y). x + y) pts"
  let ?d = "map (\<lambda>(x, y). y - x) pts"
  from assms have ne: "?s \<noteq> []" "?d \<noteq> []" by simp_all
  from argmin_spec [OF ne(1)] obtain i0 where i0: "argmin ?s = Some i0" "i0 < length pts"
    "\<forall>x \<in> set ?s. ?s ! i0 \<le> x" by auto
  from argmax_spec [OF ne(1)] obtain i2 where i2: "argmax ?s = Some i2" "i2 < length pts"
    "\<forall>x \<in> set ?s. x \<le> ?s ! i2" by auto
  from argmin_spec [OF ne(2)] obtain i1 where i1: "argmin ?d = Some i1" "i1 < length pts"
    "\<forall>x \<in> set ?d. ?d ! i1 \<le> x" by auto
  from argmax_spec [OF ne(2)] obtain i3 where i3: "argmax ?d = Some i3" "i3 < length pts"
    "\<forall>x \<in> set ?d. x \<le> ?d ! i3" by auto
  have res: "order_points pts = Some (pts ! i0, pts ! i1, pts ! i2, pts ! i3)"
    using i0(1) i1(1) i2(1) i3(1) by (simp add: order_points_def)
  have a: "\<forall>p \<in> set pts. fst (pts ! i0) + snd (pts ! i0) \<le> fst p + snd p"
    using i0(2,3) by (auto simp add: case_prod_beta)
  have b: "\<forall>p \<in> set pts. fst p + snd p \<le> fst (pts ! i2) + snd (pts ! i2)"
    using i2(2,3) by (auto simp add: case_prod_beta)
  have c: "\<forall>p \<in> set pts. fst p - snd p \<le> fst (pts ! i1) - snd (pts ! i1)"
    using i1(2,3) by (fastforce simp add: case_prod_beta)
  have d: "\<forall>p \<in> set pts. fst (pts ! i3) - snd (pts ! i3) \<le> fst p - snd p"
    using i3(2,3) by (fastforce simp add: case_prod_beta)
  from res a b c d i0(2) i1(2) i2(2) i3(2) show ?thesis
    by simp
qed

lemma isqrt_search_spec:
  "isqrt_search n k \<le> k \<and> isqrt_search n k * isqrt_search n k \<le> n \<and>
   (\<forall>j \<le> k. j * j \<le> n \<longrightarrow> j \<le> isqrt_search n k)"
proof (induction k)
  case 0
  then show ?case by simp
next
  case (Suc k)
  then show ?case
    by (auto simp add: le_Suc_eq)
qed

lemma isqrt_bounds: "isqrt n * isqrt n \<le> n \<and> n < (isqrt n + 1) * (isqrt n + 1)"
proof -
  let ?r = "isqrt_search n n"
  from isqrt_search_spec [of n n] have r: "?r \<le> n" "?r * ?r \<le> n"
    "\<forall>j \<le> n. j * j \<le> n \<longrightarrow> j \<le> ?r" by auto
  have "n < (?r + 1) * (?r + 1)"
  proof (cases "?r + 1 \<le> n")
    case True
    with r(3) have "\<not> (?r + 1) * (?r + 1) \<le> n"
      by fastforce
    then show ?thesis by simp
  next
    case False
    with r(1) have "?r = n" by simp
    then show ?thesis by simp
  qed
  with r(2) show ?thesis
    by (simp add: isqrt_def)
qed

text \<open>The integer square root is the truncation of the real square root.\<close>

lemma isqrt_floor_sqrt: "int (isqrt n) = \<lfloor>sqrt (real n)\<rfloor>"
proof -
  have lo: "(real (isqrt n))\<^sup>2 \<le> real n"
  proof -
    from isqrt_bounds [of n] have "isqrt n * isqrt n \<le> n"
      by simp
    then have "real (isqrt n * isqrt n) \<le> real n"
      by (simp only: of_nat_le_iff)
    then show ?thesis
      by (simp add: power2_eq_square)
  qed
  have hi: "real n < (real (isqrt n) + 1)\<^sup>2"
  proof -
    from isqrt_bounds [of n] have "n < (isqrt n + 1) * (isqrt n + 1)"
      by simp
    then have "real n < real ((isqrt n + 1) * (isqrt n + 1))"
      by (simp only: of_nat_less_iff)
    then show ?thesis
      by (simp add: power2_eq_square algebra_simps)
  qed
  from lo have "real (isqrt n) \<le> sqrt (real n)"
    by (rule real_le_rsqrt)
  moreover from hi have "sqrt (real n) < real (isqrt n) + 1"
    by (intro real_less_lsqrt) simp_all
  ultimately show ?thesis
    by linarith
qed


lemma largest_subset: "set (largest_contours cv img) \<subseteq> set (find_contours cv img)"
proof -
  have "set (largest_contours cv img)
      \<subseteq> set (rev (sort_key (contour_area cv) (rev (find_contours cv img))))"
    unfolding largest_contours_def by (rule set_take_subset)
  then show ?thesis by simp
qed

lemma screen_cnt_None:
  assumes "\<forall>c \<in> set (find_contours cv crop). \<not> qualifies cv crop c"
  shows "screen_cnt cv crop = None"
proof -
  from assms largest_subset [of cv crop]
  have "\<forall>c \<in> set (largest_contours cv crop). \<not> qualifies cv crop c"
    by blast
  then have "find (qualifies cv crop) (largest_contours cv crop) = None"
    by (simp add: find_None_iff)
  then show ?thesis
    by (simp add: screen_cnt_def)
qed

lemma screen_cnt_length:
  assumes "screen_cnt cv crop = Some quad"
  shows "length quad = 4"
proof -
  from assms obtain c where c: "find (qualifies cv crop) (largest_contours cv crop) = Some c"
    "quad = approx_poly cv c"
    by (auto simp add: screen_cnt_def)
  from c(1) have "qualifies cv crop c"
    by (auto simp add: find_Some_iff)
  with c(2) show ?thesis
    by (simp add: qualifies_def)
qed

lemma order_points_four:
  assumes "length quad = 4"
  shows "order_points quad \<noteq> None"
proof -
  from assms have "quad \<noteq> []"
    by auto
  from order_points_spec [OF this] show ?thesis
    by blast
qed

subsection \<open>C5: the order of the four corners\<close>

text \<open>
  C5 as stated: top-right is the point of minimum x - y and bottom-left the point of
  maximum x - y. \<open>np.diff(pts, axis=1)\<close> is y - x, so the code takes top-right at the
  minimum of y - x, which is the maximum of x - y. For the rectangle with corners
  (0,0), (10,0), (10,5), (0,5) the second point returned is (10,0), where x - y = 10 is
  the maximum; the point of minimum x - y, (0,5), is returned last.
\<close>

theorem top_right_has_maximal_difference:
  "order_points [(0, 0), (10, 0), (10, 5), (0, 5)]
     = Some ((0, 0), (10, 0), (10, 5), (0, 5)) \<and>
   fst (0 :: int, 5 :: int) - snd (0 :: int, 5 :: int)
     < fst (10 :: int, 0 :: int) - snd (10 :: int, 0 :: int)"
  by (simp add: order_points_def argmin_def argmax_def)

text \<open>
  C5, amended: for every non-empty array of points, \<open>_order_points\<close> returns four of them
  as (top-left, top-right, bottom-right, bottom-left), where top-left has minimum x + y,
  bottom-right has maximum x + y, top-right has maximum x - y (minimum y - x), and
  bottom-left has minimum x - y (maximum y - x). On an empty array \<open>np.argmin\<close> raises.
\<close>

theorem order_points_heuristic:
  "order_points [] = None \<and>
   (pts \<noteq> [] \<longrightarrow>
     (\<exists>p_tl p_tr p_br p_bl. order_points pts = Some (p_tl, p_tr, p_br, p_bl) \<and>
        p_tl \<in> set pts \<and> p_tr \<in> set pts \<and> p_br \<in> set pts \<and> p_bl \<in> set pts \<and>
        (\<forall>p \<in> set pts. fst p_tl + snd p_tl \<le> fst p + snd p) \<and>
        (\<forall>p \<in> set pts. fst p + snd p \<le> fst p_br + snd p_br) \<and>
        (\<forall>p \<in> set pts. fst p - snd p \<le> fst p_tr - snd p_tr) \<and>
        (\<forall>p \<in> set pts. fst p_bl - snd p_bl \<le> fst p - snd p)))"
proof -
  have "order_points [] = None"
    by (simp add: order_points_def argmin_def argmax_def)
  with order_points_spec [of pts] show ?thesis
    by blast
qed

theorem order_points_heuristic_witness:
  "order_points [(2, 1), (9, 3), (8, 7), (1, 6)] = Some ((2, 1), (9, 3), (8, 7), (1, 6)) \<and>
   (\<exists>p_tl p_tr p_br p_bl.
      order_points [(2, 1), (9, 3), (8, 7), (1, 6)] = Some (p_tl, p_tr, p_br, p_bl) \<and>
      (\<forall>p \<in> set [(2, 1), (9, 3), (8, 7), (1, 6)]. fst p - snd p \<le> fst p_tr - snd p_tr))"
proof -
  have ne: "[(2, 1), (9, 3), (8, 7), (1, 6)] \<noteq> ([] :: point list)"
    by simp
  have ev: "order_points [(2, 1), (9, 3), (8, 7), (1, 6)]
      = Some ((2, 1), (9, 3), (8, 7), (1, 6))"
    by (simp add: order_points_def argmin_def argmax_def)
  from order_points_heuristic [of "[(2, 1), (9, 3), (8, 7), (1, 6)]"] ne
  have "\<exists>p_tl p_tr p_br p_bl.
      order_points [(2, 1), (9, 3), (8, 7), (1, 6)] = Some (p_tl, p_tr, p_br, p_bl) \<and>
      (\<forall>p \<in> set [(2, 1), (9, 3), (8, 7), (1, 6)]. fst p - snd p \<le> fst p_tr - snd p_tr)"
    by blast
  with ev show ?thesis
    by (rule conjI)
qed

subsection \<open>C6: the fallbacks of the perspective correction\<close>

text \<open>
  C6: \<open>_correct_plate_perspective\<close> never raises and returns an image for every
  crop; it returns the crop it was given, pixel for pixel, when the crop is None or
  empty, when no contour has a four-point polygon of area above a tenth of the crop's
  area, and when the destination width is below 50 or the destination height is below
  20. The OpenCV operations are parameters of the model and are total there.
\<close>

theorem correct_plate_perspective_fallbacks:
  "correct_plate_perspective cv None = Inr None \<and>
   (size_of crop = 0 \<longrightarrow> correct_plate_perspective cv (Some crop) = Inr (Some crop)) \<and>
   ((\<forall>c \<in> set (find_contours cv crop). \<not> qualifies cv crop c) \<longrightarrow>
      correct_plate_perspective cv (Some crop) = Inr (Some crop)) \<and>
   (\<forall>quad ordered.
      screen_cnt cv crop = Some quad \<and> order_points quad = Some ordered \<and>
      (max_width ordered < 50 \<or> max_height ordered < 20) \<longrightarrow>
      correct_plate_perspective cv (Some crop) = Inr (Some crop)) \<and>
   (\<exists>img. correct_plate_perspective cv (Some crop) = Inr (Some img))"
proof -
  have none: "correct_plate_perspective cv None = Inr None"
    by (simp add: correct_plate_perspective_def)
  have empty: "size_of crop = 0 \<longrightarrow> correct_plate_perspective cv (Some crop) = Inr (Some crop)"
    by (simp add: correct_plate_perspective_def)
  have noquad: "(\<forall>c \<in> set (find_contours cv crop). \<not> qualifies cv crop c) \<longrightarrow>
      correct_plate_perspective cv (Some crop) = Inr (Some crop)"
    by (auto simp add: correct_plate_perspective_def dest: screen_cnt_None)
  have small: "\<forall>quad ordered.
      screen_cnt cv crop = Some quad \<and> order_points quad = Some ordered \<and>
      (max_width ordered < 50 \<or> max_height ordered < 20) \<longrightarrow>
      correct_plate_perspective cv (Some crop) = Inr (Some crop)"
    by (auto simp add: correct_plate_perspective_def Let_def)
  have returns: "\<exists>img. correct_plate_perspective cv (Some crop) = Inr (Some img)"
  proof (cases "screen_cnt cv crop")
    case None
    then show ?thesis
      by (simp add: correct_plate_perspective_def)
  next
    case (Some quad)
    then have "order_points quad \<noteq> None"
      by (intro order_points_four screen_cnt_length)
    then obtain ordered where "order_points quad = Some ordered"
      by auto
    with Some show ?thesis
      by (simp add: correct_plate_perspective_def Let_def)
  qed
  from none empty noquad small returns show ?thesis
    by blast
qed

theorem correct_plate_perspective_fallbacks_witness:
  "size_of \<lparr>rows = 0, cols = 5, pixels = []\<rparr> = 0 \<and>
   correct_plate_perspective sample_cv (Some \<lparr>rows = 0, cols = 5, pixels = []\<rparr>)
     = Inr (Some \<lparr>rows = 0, cols = 5, pixels = []\<rparr>) \<and>
   max_width ((0, 0), (3, 0), (3, 3), (0, 3)) < 50 \<and>
   correct_plate_perspective sample_cv (Some \<lparr>rows = 4, cols = 4, pixels = replicate 48 0\<rparr>)
     = Inr (Some \<lparr>rows = 4, cols = 4, pixels = replicate 48 0\<rparr>)"
proof -
  have h0: "size_of \<lparr>rows = 0, cols = 5, pixels = []\<rparr> = 0"
    by (simp add: size_of_def)
  have h1: "screen_cnt sample_cv \<lparr>rows = 4, cols = 4, pixels = replicate 48 0\<rparr>
      = Some [(0, 0), (3, 0), (3, 3), (0, 3)]"
    by (simp add: screen_cnt_def largest_contours_def qualifies_def sample_cv_def)
  have h2: "order_points [(0, 0), (3, 0), (3, 3), (0, 3)]
      = Some ((0, 0), (3, 0), (3, 3), (0, 3))"
    by (simp add: order_points_def argmin_def argmax_def)
  have h3: "max_width ((0, 0), (3, 0), (3, 3), (0, 3)) < 50"
    by code_simp
  from correct_plate_perspective_fallbacks
    [of sample_cv "\<lparr>rows = 0, cols = 5, pixels = []\<rparr>"] h0
  have a: "correct_plate_perspective sample_cv (Some \<lparr>rows = 0, cols = 5, pixels = []\<rparr>)
      = Inr (Some \<lparr>rows = 0, cols = 5, pixels = []\<rparr>)"
    by blast
  from correct_plate_perspective_fallbacks
    [of sample_cv "\<lparr>rows = 4, cols = 4, pixels = replicate 48 0\<rparr>"] h1 h2 h3
  have b: "correct_plate_perspective sample_cv
        (Some \<lparr>rows = 4, cols = 4, pixels = replicate 48 0\<rparr>)
      = Inr (Some \<lparr>rows = 4, cols = 4, pixels = replicate 48 0\<rparr>)"
    by blast
  from h0 a h3 b show ?thesis
    by blast
qed

section \<open>Properties of the background workers\<close>

lemma process_latest_dropped:
  "processing (the_worker sys) \<or> stop_event (the_worker sys) \<Longrightarrow> process_latest crop sys = sys"
  by (auto simp add: process_latest_def)



















lemma fp_format_hd:
  assumes "fp_validate_and_format_plate raw = Some t"
  shows "t \<noteq> [] \<and> is_digit (hd t)"
proof -
  let ?n = "digits_only (clean_text raw)"
  from assms have len: "length ?n = 7 \<or> length ?n = 8 \<or> length ?n = 9"
    using fp_validate_None_iff [of raw] by auto
  then have ne: "?n \<noteq> []"
    by auto
  then have "hd ?n \<in> set ?n"
    by simp
  then have dig: "is_digit (hd ?n)"
    by (simp add: digits_only_def)
  from assms len have t: "t = format_nn_nnn_nn ?n \<or> t = format_nnn_nn_nnn ?n \<or>
      t = format_nnn_nn_nnn (drop 1 ?n) @ '' or '' @ format_nnn_nn_nnn (butlast ?n)"
    by (auto simp add: fp_validate_and_format_plate_def
        fp_validate_and_format_plate_by_rules_def Let_def split: if_splits)
  from len have "hd (drop 1 ?n) = ?n ! 1" "drop 1 ?n \<noteq> []"
    by (auto simp add: hd_drop_conv_nth)
  moreover from len have "?n ! 1 \<in> set ?n"
    by (intro nth_mem) auto
  ultimately have dig1: "is_digit (hd (drop 1 ?n))" "drop 1 ?n \<noteq> []"
    by (simp_all add: digits_only_def)
  from t ne dig dig1 show ?thesis
    by (auto simp add: format_nn_nnn_nn_def format_nnn_nn_nnn_def)
qed

lemma raw_debug_text_hd: "hd (raw_debug_text raw) = CHR ''R''"
  by (simp add: raw_debug_text_def Let_def)

lemma R_not_digit: "\<not> is_digit CHR ''R''"
  by (simp add: is_digit_def ascii_digits_def)

lemma debug_text_not_formatted:
  "fp_validate_and_format_plate raw' \<noteq> Some (raw_debug_text raw)"
  using fp_format_hd [of raw' "raw_debug_text raw"] raw_debug_text_hd [of raw] R_not_digit
  by auto

lemma debug_text_not_sentinel: "raw_debug_text raw \<noteq> ''No plate detected''"
  using raw_debug_text_hd [of raw] by auto






subsection \<open>C8: at most one background task\<close>

text \<open>
  C8: a request made while a task is in flight starts no new task. The flag
  \<open>processing\<close> that guards \<open>process_latest\<close> is set only inside \<open>_process_ocr\<close>, by the
  new thread, and not by \<open>process_latest\<close> before it starts the thread. Two requests made
  before the first thread has run its first statements both pass the guard: two threads
  are started, and after both have entered two tasks read a plate at the same time.
  A request made once the flag or the stop event is set is dropped
  (\<open>process_latest_dropped\<close>).
\<close>

theorem two_requests_start_two_tasks:
  "threads (run [ProcessLatest \<lparr>rows = 1, cols = 1, pixels = [0, 0, 0]\<rparr>,
                 ProcessLatest \<lparr>rows = 1, cols = 1, pixels = [9, 9, 9]\<rparr>]
              (new_system ''trocr'')) = [AtEntry, AtEntry] \<and>
   started (run [ProcessLatest \<lparr>rows = 1, cols = 1, pixels = [0, 0, 0]\<rparr>,
                 ProcessLatest \<lparr>rows = 1, cols = 1, pixels = [9, 9, 9]\<rparr>]
              (new_system ''trocr'')) = 2 \<and>
   in_flight (run [ProcessLatest \<lparr>rows = 1, cols = 1, pixels = [0, 0, 0]\<rparr>,
                   ProcessLatest \<lparr>rows = 1, cols = 1, pixels = [9, 9, 9]\<rparr>,
                   Enter 0, Enter 1]
              (new_system ''trocr'')) = 2 \<and>
   threads (run [ProcessLatest \<lparr>rows = 1, cols = 1, pixels = [0, 0, 0]\<rparr>,
                 ProcessLatest \<lparr>rows = 1, cols = 1, pixels = [9, 9, 9]\<rparr>,
                 Enter 0, Enter 1]
              (new_system ''trocr'')) = [Reading, Reading]"
  by (simp add: run_def new_system_def new_worker_def process_latest_def process_ocr_enter_def
      started_def in_flight_def)

subsection \<open>C9: the latest result of \<open>SimpleOCRWorker\<close>\<close>




subsection \<open>C10: the debug text of \<open>FastPlateOCRWorker\<close>\<close>

text \<open>
  C10: in a task that runs to its end, a non-empty text that fails validation makes the
  latest result "Raw: digits (len:n)", which is neither the sentinel nor a string the
  validator returns; a missing result, an empty list or an empty first text resets it to
  "No plate detected".
\<close>

theorem fp_process_ocr_publishes_debug_text:
  "fp_current_task w \<noteq> None \<and> \<not> fp_stop_event w \<and> fp_recognizer_ready w \<longrightarrow>
     (first \<noteq> [] \<and> fp_validate_and_format_plate first = None \<longrightarrow>
        fp_latest_result (fp_process_ocr (Returns (Plates (first # others))) False w)
          = ''Raw: '' @ digits_only (clean_text first) @ '' (len:''
              @ string_of_nat (length (digits_only (clean_text first))) @ '')'' \<and>
        fp_latest_result (fp_process_ocr (Returns (Plates (first # others))) False w)
          \<noteq> ''No plate detected'' \<and>
        (\<forall>raw. fp_validate_and_format_plate raw
           \<noteq> Some (fp_latest_result (fp_process_ocr (Returns (Plates (first # others))) False w)))) \<and>
     fp_latest_result (fp_process_ocr (Returns NoResult) False w) = ''No plate detected'' \<and>
     fp_latest_result (fp_process_ocr (Returns (Plates [])) False w) = ''No plate detected'' \<and>
     fp_latest_result (fp_process_ocr (Returns (Plates ([] # others))) False w)
       = ''No plate detected''"
proof (intro impI)
  assume runs: "fp_current_task w \<noteq> None \<and> \<not> fp_stop_event w \<and> fp_recognizer_ready w"
  have debug: "first \<noteq> [] \<and> fp_validate_and_format_plate first = None \<longrightarrow>
      fp_latest_result (fp_process_ocr (Returns (Plates (first # others))) False w)
        = raw_debug_text first"
    using runs by (auto simp add: fp_process_ocr_def fp_publish_def Let_def)
  have empty: "fp_latest_result (fp_process_ocr (Returns NoResult) False w) = ''No plate detected''"
    "fp_latest_result (fp_process_ocr (Returns (Plates [])) False w) = ''No plate detected''"
    "fp_latest_result (fp_process_ocr (Returns (Plates ([] # others))) False w)
       = ''No plate detected''"
    using runs by (auto simp add: fp_process_ocr_def fp_publish_def Let_def)
  have shape: "raw_debug_text first = ''Raw: '' @ digits_only (clean_text first) @ '' (len:''
      @ string_of_nat (length (digits_only (clean_text first))) @ '')''"
    by (simp add: raw_debug_text_def Let_def)
  from debug empty shape debug_text_not_formatted [of _ first] debug_text_not_sentinel [of first]
  show "(first \<noteq> [] \<and> fp_validate_and_format_plate first = None \<longrightarrow>
        fp_latest_result (fp_process_ocr (Returns (Plates (first # others))) False w)
          = ''Raw: '' @ digits_only (clean_text first) @ '' (len:''
              @ string_of_nat (length (digits_only (clean_text first))) @ '')'' \<and>
        fp_latest_result (fp_process_ocr (Returns (Plates (first # others))) False w)
          \<noteq> ''No plate detected'' \<and>
        (\<forall>raw. fp_validate_and_format_plate raw
           \<noteq> Some (fp_latest_result (fp_process_ocr (Returns (Plates (first # others))) False w)))) \<and>
     fp_latest_result (fp_process_ocr (Returns NoResult) False w) = ''No plate detected'' \<and>
     fp_latest_result (fp_process_ocr (Returns (Plates [])) False w) = ''No plate detected'' \<and>
     fp_latest_result (fp_process_ocr (Returns (Plates ([] # others))) False w)
       = ''No plate detected''"
    by metis
qed

theorem fp_process_ocr_publishes_debug_text_witness:
  "fp_validate_and_format_plate ''123456'' = None \<and>
   fp_latest_result (fp_process_ocr (Returns (Plates [''123456''])) False
      ((new_fp_worker True)\<lparr>fp_current_task := Some \<lparr>rows = 1, cols = 1, pixels = [0, 0, 0]\<rparr>\<rparr>))
     = ''Raw: 123456 (len:6)''"
proof -
  let ?w = "(new_fp_worker True)\<lparr>fp_current_task := Some \<lparr>rows = 1, cols = 1, pixels = [0, 0, 0]\<rparr>\<rparr>"
  have runs: "fp_current_task ?w \<noteq> None \<and> \<not> fp_stop_event ?w \<and> fp_recognizer_ready ?w"
    by (simp add: new_fp_worker_def)
  have rejected: "fp_validate_and_format_plate ''123456'' = None"
    by code_simp
  have ne: "''123456'' \<noteq> []"
    by simp
  have shape: "''Raw: '' @ digits_only (clean_text ''123456'') @ '' (len:''
      @ string_of_nat (length (digits_only (clean_text ''123456''))) @ '')''
      = ''Raw: 123456 (len:6)''"
    by code_simp
  from fp_process_ocr_publishes_debug_text [of ?w "''123456''" "[]"] runs rejected ne
  have "fp_latest_result (fp_process_ocr (Returns (Plates [''123456''])) False ?w)
      = ''Raw: '' @ digits_only (clean_text ''123456'') @ '' (len:''
      @ string_of_nat (length (digits_only (clean_text ''123456''))) @ '')''"
    by blast
  then have "fp_latest_result (fp_process_ocr (Returns (Plates [''123456''])) False ?w)
      = ''Raw: 123456 (len:6)''"
    using shape by (rule trans)
  with rejected show ?thesis
    by (rule conjI)
qed

end
